theory Spec2Isabelle
  imports Complex_Main "HOL-Library.Multiset" "HOL-Library.Char_ord" "HOL-Library.List_Lexorder"
begin

section \<open>The taxi trip pipeline of \<open>app.py\<close>\<close>

text \<open>
  \<open>load_data\<close> (lines 8 to 56 of \<open>app.py\<close>) reads two tables, samples 150000 trips,
  drops trips without a positive distance and fare, parses the two timestamps, derives
  three columns, joins the zone table and replaces the payment code by its label. The
  script then filters the table by the sidebar widgets and counts groups for its charts.

  A data frame is modelled as the list of its rows, a row as a record of its cells.
  A float cell is \<open>real option\<close>: \<open>None\<close> is NaN, the finite values are idealised as
  reals (rounding is not modelled). A timestamp is the integer count of nanoseconds since
  1970-01-01T00:00:00, as pandas stores it (the hour, the weekday and the duration do not
  depend on this unit); its 64-bit range is not modelled. A null (NaT, NaN, None) in any
  other column is \<open>None\<close> as well. The payment code and the pickup location id are integer
  columns without nulls.
\<close>

subsection \<open>Cells and rows\<close>

type_synonym float64 = "real option"
type_synonym timestamp = int
type_synonym datetime = "timestamp option"

text \<open>
  A cell of a timestamp column as \<open>read_parquet\<close> delivers it: a timestamp, a null, or,
  in a column of strings, a text still to be parsed.
\<close>

datatype datetime_cell = Stamp timestamp | Text string | Missing

text \<open>
  The seven projected columns (lines 16 to 24). The timestamp columns change their type
  at lines 36 and 37 and the payment column at line 54, hence the two type parameters.
\<close>

record ('t, 'p) trip =
  tpep_pickup_datetime :: 't
  tpep_dropoff_datetime :: 't
  trip_distance :: float64
  fare_amount :: float64
  total_amount :: float64
  payment_type :: 'p
  PULocationID :: int

text \<open>The columns added at lines 39 to 44.\<close>

record ('t, 'p) derived = "('t, 'p) trip" +
  pickup_hour :: "int option"
  pickup_day_of_week :: "string option"
  trip_duration_minutes :: float64

text \<open>
  A row of the zone lookup table (line 30). \<open>read_csv\<close> turns an empty cell and the
  text \<open>N/A\<close> into a null, so every column is optional. The location id is the key of
  the table; the code relies on its being unique and does not check it, so where a
  property needs the key it is a hypothesis, \<open>distinct (map LocationID zones)\<close>.
\<close>

record zone =
  LocationID :: "int option"
  Borough :: "string option"
  Zone :: "string option"
  service_zone :: "string option"

text \<open>A row after the join of line 46: the trip's columns and the four zone columns.\<close>

record ('t, 'p) enriched = "('t, 'p) derived" +
  zone_cols :: zone

type_synonym raw_trip = "(datetime_cell, int) trip"
type_synonym table = "(datetime, string option) enriched list"

datatype error =
  SampleLargerThanPopulation  \<comment> \<open>\<open>ValueError\<close> of \<open>RandomState.choice\<close>\<close>
| IndexOutOfBounds            \<comment> \<open>\<open>IndexError\<close> of \<open>take\<close>\<close>
| UnparseableDatetime         \<comment> \<open>\<open>ValueError\<close> of \<open>to_datetime\<close>\<close>

subsection \<open>Sampling (line 28)\<close>

text \<open>
  \<open>df.sample(150000, random_state=42)\<close> builds a fresh generator from the seed, asks it
  for \<open>choice(len(df), size=150000, replace=False)\<close>, which is the first 150000 entries of
  \<open>permutation(len(df))\<close>, and takes the rows at these positions. Without a seed pandas
  would use (and advance) the process-wide generator of numpy instead. The generator
  itself is a parameter of the model: \<open>RandomState\<close> seeds a generator state, and
  \<open>permutation\<close> draws from a state and returns the next one.
\<close>

record 'g rng =
  RandomState :: "nat \<Rightarrow> 'g"
  permutation :: "'g \<Rightarrow> nat \<Rightarrow> nat list \<times> 'g"

definition choice :: "'g rng \<Rightarrow> 'g \<Rightarrow> nat \<Rightarrow> nat \<Rightarrow> (error + nat list) \<times> 'g" where
  "choice R rs pop_size n =
     (if n > pop_size then (Inl SampleLargerThanPopulation, rs)
      else case permutation R rs pop_size of (p, rs') \<Rightarrow> (Inr (take n p), rs'))"

definition take_rows :: "'a list \<Rightarrow> nat list \<Rightarrow> error + 'a list" where
  "take_rows df idx =
     (if list_all (\<lambda>i. i < length df) idx then Inr (map (\<lambda>i. df ! i) idx)
      else Inl IndexOutOfBounds)"

definition sample_df ::
  "'g rng \<Rightarrow> nat \<Rightarrow> nat option \<Rightarrow> 'g \<Rightarrow> 'a list \<Rightarrow> (error + 'a list) \<times> 'g" where
  "sample_df R n random_state np_random df =
     (case random_state of
        Some seed \<Rightarrow>
          (case choice R (RandomState R seed) (length df) n of
             (Inl e, _) \<Rightarrow> (Inl e, np_random)
           | (Inr idx, _) \<Rightarrow> (take_rows df idx, np_random))
      | None \<Rightarrow>
          (case choice R np_random (length df) n of
             (Inl e, g') \<Rightarrow> (Inl e, g')
           | (Inr idx, g') \<Rightarrow> (take_rows df idx, g')))"

subsection \<open>Cleaning (lines 33 and 34)\<close>

text \<open>The comparison \<open>> 0\<close> of a float column: false on NaN.\<close>

fun gt_zero :: "float64 \<Rightarrow> bool" where
  "gt_zero None = False"
| "gt_zero (Some x) = (0 < x)"

definition clean :: "('t, 'p) trip list \<Rightarrow> ('t, 'p) trip list" where
  "clean df =
     (let df = filter (\<lambda>r. gt_zero (trip_distance r)) df;
          df = filter (\<lambda>r. gt_zero (fare_amount r)) df
      in df)"

subsection \<open>Parsing the timestamps (lines 36 and 37)\<close>

text \<open>
  \<open>pd.to_datetime\<close> keeps a timestamp, turns a null into NaT and parses a text. The
  parser for texts is a parameter: it returns \<open>None\<close> for a text it rejects, and then
  \<open>to_datetime\<close> raises; a text such as the empty one parses to NaT, \<open>Some None\<close>.
\<close>

fun convert_cell :: "(string \<Rightarrow> datetime option) \<Rightarrow> datetime_cell \<Rightarrow> datetime option" where
  "convert_cell parse (Stamp t) = Some (Some t)"
| "convert_cell parse Missing = Some None"
| "convert_cell parse (Text s) = parse s"

fun to_datetime :: "(string \<Rightarrow> datetime option) \<Rightarrow> datetime_cell list \<Rightarrow> error + datetime list" where
  "to_datetime parse [] = Inr []"
| "to_datetime parse (c # cs) =
     (case convert_cell parse c of
        None \<Rightarrow> Inl UnparseableDatetime
      | Some t \<Rightarrow>
          (case to_datetime parse cs of
             Inl e \<Rightarrow> Inl e
           | Inr ts \<Rightarrow> Inr (t # ts)))"

text \<open>The row with its two timestamp cells replaced by the parsed columns' values.\<close>

definition with_datetimes :: "raw_trip \<Rightarrow> datetime \<Rightarrow> datetime \<Rightarrow> (datetime, int) trip" where
  "with_datetimes r pickup dropoff =
     \<lparr>tpep_pickup_datetime = pickup, tpep_dropoff_datetime = dropoff,
      trip_distance = trip_distance r, fare_amount = fare_amount r,
      total_amount = total_amount r, payment_type = payment_type r,
      PULocationID = PULocationID r\<rparr>"

subsection \<open>Derived columns (lines 39 to 44)\<close>

definition ns_per_second :: int where "ns_per_second = 1000000000"
definition ns_per_hour :: int where "ns_per_hour = 3600 * ns_per_second"
definition ns_per_day :: int where "ns_per_day = 24 * ns_per_hour"

text \<open>\<open>.dt.hour\<close>: the hour of the day, null for NaT.\<close>

fun dt_hour :: "datetime \<Rightarrow> int option" where
  "dt_hour None = None"
| "dt_hour (Some t) = Some ((t div ns_per_hour) mod 24)"

text \<open>\<open>.dt.day_name()\<close>: 1970-01-01 was a Thursday, and Monday is day 0.\<close>

definition day_names :: "string list" where
  "day_names = [''Monday'', ''Tuesday'', ''Wednesday'', ''Thursday'', ''Friday'',
                ''Saturday'', ''Sunday'']"

fun dt_day_name :: "datetime \<Rightarrow> string option" where
  "dt_day_name None = None"
| "dt_day_name (Some t) = Some (day_names ! nat ((t div ns_per_day + 3) mod 7))"

text \<open>The difference of two timestamp columns, \<open>.dt.total_seconds()\<close>, and \<open>/ 60\<close>.\<close>

fun sub_datetime :: "datetime \<Rightarrow> datetime \<Rightarrow> int option" where
  "sub_datetime (Some a) (Some b) = Some (a - b)"
| "sub_datetime _ _ = None"

fun total_seconds :: "int option \<Rightarrow> float64" where
  "total_seconds None = None"
| "total_seconds (Some d) = Some (real_of_int d / real_of_int ns_per_second)"

fun div_float :: "float64 \<Rightarrow> real \<Rightarrow> float64" where
  "div_float None c = None"
| "div_float (Some x) c = Some (x / c)"

definition derive :: "(datetime, 'p) trip \<Rightarrow> (datetime, 'p) derived" where
  "derive r = trip.extend r
     (derived.fields
        (dt_hour (tpep_pickup_datetime r))
        (dt_day_name (tpep_pickup_datetime r))
        (div_float
           (total_seconds (sub_datetime (tpep_dropoff_datetime r) (tpep_pickup_datetime r)))
           60))"

subsection \<open>The zone join (line 46)\<close>

definition null_zone :: zone where
  "null_zone = \<lparr>LocationID = None, Borough = None, Zone = None, service_zone = None\<rparr>"

text \<open>
  \<open>merge(zones, left_on="PULocationID", right_on="LocationID", how="left")\<close>: the left
  rows in their order, each once per matching zone row (in the zone table's order), or
  once with null zone columns when no zone row matches.
\<close>

definition matches :: "zone list \<Rightarrow> int \<Rightarrow> zone list" where
  "matches zones k = filter (\<lambda>z. LocationID z = Some k) zones"

definition merge_row :: "zone list \<Rightarrow> ('t, 'p) derived \<Rightarrow> ('t, 'p) enriched list" where
  "merge_row zones r =
     (case matches zones (PULocationID r) of
        [] \<Rightarrow> [derived.extend r (enriched.fields null_zone)]
      | z # zs \<Rightarrow> map (\<lambda>z. derived.extend r (enriched.fields z)) (z # zs))"

definition merge :: "('t, 'p) derived list \<Rightarrow> zone list \<Rightarrow> ('t, 'p) enriched list" where
  "merge df zones = concat (map (merge_row zones) df)"

subsection \<open>Payment labels (lines 48 to 54)\<close>

definition payment_map :: "int \<rightharpoonup> string" where
  "payment_map = [1 \<mapsto> ''Credit Card'', 2 \<mapsto> ''Cash'', 3 \<mapsto> ''No Charge'', 4 \<mapsto> ''Dispute'']"

text \<open>\<open>Series.map\<close> with a dictionary: a value that is no key becomes null.\<close>

definition series_map :: "('k \<rightharpoonup> 'v) \<Rightarrow> 'k list \<Rightarrow> 'v option list" where
  "series_map m col = map (\<lambda>k. m k) col"

text \<open>The row with its payment cell replaced.\<close>

definition with_payment_type :: "('t, 'p) enriched \<Rightarrow> 'q \<Rightarrow> ('t, 'q) enriched" where
  "with_payment_type r p =
     \<lparr>tpep_pickup_datetime = tpep_pickup_datetime r,
      tpep_dropoff_datetime = tpep_dropoff_datetime r,
      trip_distance = trip_distance r, fare_amount = fare_amount r,
      total_amount = total_amount r, payment_type = p,
      PULocationID = PULocationID r,
      pickup_hour = pickup_hour r, pickup_day_of_week = pickup_day_of_week r,
      trip_duration_minutes = trip_duration_minutes r,
      zone_cols = zone_cols r\<rparr>"

subsection \<open>\<open>load_data\<close> (lines 8 to 56)\<close>

text \<open>
  Lines 32 to 56, on the sampled rows. A column assignment \<open>df[c] = col\<close> is the row-wise
  \<open>map2\<close> of the rows and the new column.
\<close>

definition transform ::
  "(string \<Rightarrow> datetime option) \<Rightarrow> zone list \<Rightarrow> raw_trip list \<Rightarrow> error + table" where
  "transform parse zones sampled =
     (let df = clean sampled in
      case to_datetime parse (map tpep_pickup_datetime df) of
        Inl e \<Rightarrow> Inl e
      | Inr pickup \<Rightarrow>
          (case to_datetime parse (map tpep_dropoff_datetime df) of
             Inl e \<Rightarrow> Inl e
           | Inr dropoff \<Rightarrow>
               (let df = map2 (\<lambda>r (p, d). with_datetimes r p d) df (zip pickup dropoff);
                    df = map derive df;
                    df = merge df zones;
                    df = map2 with_payment_type df (series_map payment_map (map payment_type df))
                in Inr df)))"

text \<open>
  The whole function: the two tables that the fixed URLs deliver are its inputs, and the
  state of numpy's process-wide generator is threaded through.
\<close>

definition load_data ::
  "'g rng \<Rightarrow> (string \<Rightarrow> datetime option) \<Rightarrow> raw_trip list \<Rightarrow> zone list \<Rightarrow> 'g
     \<Rightarrow> (error + table) \<times> 'g" where
  "load_data R parse taxi zones np_random =
     (case sample_df R 150000 (Some 42) np_random taxi of
        (Inl e, g') \<Rightarrow> (Inl e, g')
      | (Inr df, g') \<Rightarrow> (transform parse zones df, g'))"

text \<open>
  \<open>@st.cache_data\<close> (line 7): the first successful result is kept for the session and
  returned by every later call; a call that raises stores nothing.
\<close>

record ('g, 'v) session =
  np_random_state :: 'g
  cache :: "'v option"

definition cached_load_data ::
  "'g rng \<Rightarrow> (string \<Rightarrow> datetime option) \<Rightarrow> raw_trip list \<Rightarrow> zone list \<Rightarrow> ('g, table) session
     \<Rightarrow> (error + table) \<times> ('g, table) session" where
  "cached_load_data R parse taxi zones w =
     (case cache w of
        Some df \<Rightarrow> (Inr df, w)
      | None \<Rightarrow>
          (case load_data R parse taxi zones (np_random_state w) of
             (Inl e, g') \<Rightarrow> (Inl e, w\<lparr>np_random_state := g'\<rparr>)
           | (Inr df, g') \<Rightarrow> (Inr df, \<lparr>np_random_state = g', cache = Some df\<rparr>)))"

subsection \<open>The filtered view (lines 92 to 98)\<close>

text \<open>
  \<open>.dt.date\<close> as the number of days since 1970-01-01. A comparison with a null (NaT, NaN)
  is false; \<open>isin\<close> finds a null among the selected values when a null is selected.
\<close>

fun dt_date :: "datetime \<Rightarrow> int option" where
  "dt_date None = None"
| "dt_date (Some t) = Some (t div ns_per_day)"

fun ge_cell :: "int option \<Rightarrow> int \<Rightarrow> bool" where
  "ge_cell None b = False"
| "ge_cell (Some a) b = (a \<ge> b)"

fun le_cell :: "int option \<Rightarrow> int \<Rightarrow> bool" where
  "le_cell None b = False"
| "le_cell (Some a) b = (a \<le> b)"

definition isin :: "'a \<Rightarrow> 'a list \<Rightarrow> bool" where
  "isin v vs = List.member vs v"

definition filtered_df ::
  "int \<times> int \<Rightarrow> int \<times> int \<Rightarrow> string option list \<Rightarrow> table \<Rightarrow> table" where
  "filtered_df date_range hour_range payment_types df =
     filter (\<lambda>r.
         ge_cell (dt_date (tpep_pickup_datetime r)) (fst date_range) \<and>
         le_cell (dt_date (tpep_pickup_datetime r)) (snd date_range) \<and>
         ge_cell (pickup_hour r) (fst hour_range) \<and>
         le_cell (pickup_hour r) (snd hour_range) \<and>
         isin (payment_type r) payment_types) df"

subsection \<open>The counts of the charts (lines 124 to 130 and 208 to 210)\<close>

text \<open>Grouping and counting leave the null keys out (\<open>dropna=True\<close> is the default).\<close>

fun dropna :: "'a option list \<Rightarrow> 'a list" where
  "dropna [] = []"
| "dropna (None # xs) = dropna xs"
| "dropna (Some x # xs) = x # dropna xs"

text \<open>The distinct values in the order of their first appearance.\<close>

definition unique :: "'a list \<Rightarrow> 'a list" where
  "unique xs = rev (remdups (rev xs))"

text \<open>\<open>groupby(key).size().reset_index(name=...)\<close>: one row per key, the keys sorted.\<close>

definition groupby_size :: "'k::linorder option list \<Rightarrow> ('k \<times> nat) list" where
  "groupby_size col =
     (let ks = dropna col in map (\<lambda>k. (k, count_list ks k)) (sort (remdups ks)))"

text \<open>
  \<open>sort_values(count, ascending=False)\<close>. pandas does not fix the order of rows with
  equal counts; the model keeps them in their previous order.
\<close>

definition sort_values_desc :: "('k \<times> nat) list \<Rightarrow> ('k \<times> nat) list" where
  "sort_values_desc rows = sort_key (\<lambda>row. - int (snd row)) rows"

text \<open>
  The column \<open>Zone\<close> of the table, \<open>groupby("Zone").size().reset_index(name="trips")\<close>,
  and the ten largest groups that the bar chart shows.
\<close>

definition zone_name :: "('t, 'p) enriched \<Rightarrow> string option" where
  "zone_name r = Zone (zone_cols r)"

definition zone_group_sizes :: "table \<Rightarrow> (string \<times> nat) list" where
  "zone_group_sizes df = groupby_size (map zone_name df)"

definition zone_counts :: "table \<Rightarrow> (string \<times> nat) list" where
  "zone_counts df = take 10 (sort_values_desc (zone_group_sizes df))"

text \<open>\<open>value_counts()\<close>: the count of each distinct non-null value, largest first.\<close>

definition value_counts :: "'k option list \<Rightarrow> ('k \<times> nat) list" where
  "value_counts col =
     (let ks = dropna col in sort_values_desc (map (\<lambda>k. (k, count_list ks k)) (unique ks)))"

definition payment_counts :: "table \<Rightarrow> (string \<times> nat) list" where
  "payment_counts df = sort_values_desc (value_counts (map payment_type df))"

subsection \<open>The rows of the result, one source row at a time\<close>

text \<open>
  What lines 33 to 54 do to a single sampled row: whether it is kept, whether its cells
  parse, and the rows of the result it becomes.
\<close>

definition parsed_cell :: "(string \<Rightarrow> datetime option) \<Rightarrow> datetime_cell \<Rightarrow> datetime" where
  "parsed_cell parse c = (case convert_cell parse c of Some t \<Rightarrow> t | None \<Rightarrow> None)"

definition parseable :: "(string \<Rightarrow> datetime option) \<Rightarrow> raw_trip \<Rightarrow> bool" where
  "parseable parse r =
     (convert_cell parse (tpep_pickup_datetime r) \<noteq> None \<and>
      convert_cell parse (tpep_dropoff_datetime r) \<noteq> None)"

definition parsed_row :: "(string \<Rightarrow> datetime option) \<Rightarrow> raw_trip \<Rightarrow> (datetime, int) trip" where
  "parsed_row parse r =
     with_datetimes r (parsed_cell parse (tpep_pickup_datetime r))
       (parsed_cell parse (tpep_dropoff_datetime r))"

definition relabel :: "('t, int) enriched \<Rightarrow> ('t, string option) enriched" where
  "relabel r = with_payment_type r (payment_map (payment_type r))"

definition enrich_row ::
  "(string \<Rightarrow> datetime option) \<Rightarrow> zone list \<Rightarrow> raw_trip \<Rightarrow> table" where
  "enrich_row parse zones r = map relabel (merge_row zones (derive (parsed_row parse r)))"

definition keeps :: "('t, 'p) trip \<Rightarrow> bool" where
  "keeps r = (gt_zero (trip_distance r) \<and> gt_zero (fare_amount r))"

subsection \<open>Example inputs\<close>

text \<open>
  A generator whose permutation is the identity, a parser that rejects every text, and
  a trip from JFK airport on Monday 2024-01-15 from 08:30:00 to 08:47:30.
\<close>

definition identity_rng :: "nat rng" where
  "identity_rng = \<lparr>RandomState = (\<lambda>seed. seed), permutation = (\<lambda>g n. ([0..<n], Suc g))\<rparr>"

definition no_parser :: "string \<Rightarrow> datetime option" where
  "no_parser s = None"

definition monday_0830 :: timestamp where
  "monday_0830 = 1705307400 * ns_per_second"

definition jfk_trip :: raw_trip where
  "jfk_trip =
     \<lparr>tpep_pickup_datetime = Stamp monday_0830,
      tpep_dropoff_datetime = Stamp (monday_0830 + 1050 * ns_per_second),
      trip_distance = Some (5 / 2), fare_amount = Some 12, total_amount = Some 15,
      payment_type = 1, PULocationID = 132\<rparr>"

definition jfk_zone :: zone where
  "jfk_zone =
     \<lparr>LocationID = Some 132, Borough = Some ''Queens'', Zone = Some ''JFK Airport'',
      service_zone = Some ''Airports''\<rparr>"

definition jfk_row :: "(datetime, string option) enriched" where
  "jfk_row =
     \<lparr>tpep_pickup_datetime = Some monday_0830,
      tpep_dropoff_datetime = Some (monday_0830 + 1050 * ns_per_second),
      trip_distance = Some (5 / 2), fare_amount = Some 12, total_amount = Some 15,
      payment_type = Some ''Credit Card'', PULocationID = 132,
      pickup_hour = Some 8, pickup_day_of_week = Some ''Monday'',
      trip_duration_minutes = Some (35 / 2), zone_cols = jfk_zone\<rparr>"

text \<open>The same trip with a fare of zero, and 150000 trips that start with it.\<close>

definition free_ride :: raw_trip where
  "free_ride = jfk_trip\<lparr>fare_amount := Some 0\<rparr>"

definition taxi_with_free_ride :: "raw_trip list" where
  "taxi_with_free_ride = free_ride # replicate 149999 jfk_trip"

text \<open>The trip with a dropoff ten minutes before its pickup, and without a pickup time.\<close>

definition backwards_trip :: raw_trip where
  "backwards_trip =
     jfk_trip\<lparr>tpep_dropoff_datetime := Stamp (monday_0830 - 600 * ns_per_second)\<rparr>"

definition backwards_row :: "(datetime, string option) enriched" where
  "backwards_row =
     jfk_row\<lparr>tpep_dropoff_datetime := Some (monday_0830 - 600 * ns_per_second),
             trip_duration_minutes := Some (- 10)\<rparr>"

definition undated_trip :: raw_trip where
  "undated_trip = jfk_trip\<lparr>tpep_pickup_datetime := Missing\<rparr>"

definition undated_row :: "(datetime, string option) enriched" where
  "undated_row =
     jfk_row\<lparr>tpep_pickup_datetime := None, pickup_hour := None,
             pickup_day_of_week := None, trip_duration_minutes := None\<rparr>"

text \<open>
  The same trip in a table whose timestamp columns are texts, a parser that knows its two
  texts (and the empty text, which is NaT), the trip with a pickup text that the parser
  rejects, once as it is and once with a distance of zero, and 150000 trips that start
  with either.
\<close>

definition text_trip :: raw_trip where
  "text_trip =
     jfk_trip\<lparr>tpep_pickup_datetime := Text ''2024-01-15 08:30:00'',
              tpep_dropoff_datetime := Text ''2024-01-15 08:47:30''\<rparr>"

definition text_parser :: "string \<Rightarrow> datetime option" where
  "text_parser s =
     (if s = ''2024-01-15 08:30:00'' then Some (Some monday_0830)
      else if s = ''2024-01-15 08:47:30'' then Some (Some (monday_0830 + 1050 * ns_per_second))
      else if s = [] then Some None
      else None)"

definition garbled_trip :: raw_trip where
  "garbled_trip = text_trip\<lparr>tpep_pickup_datetime := Text ''not a date''\<rparr>"

definition garbled_free_ride :: raw_trip where
  "garbled_free_ride = garbled_trip\<lparr>trip_distance := Some 0\<rparr>"

definition taxi_with_garbled_trip :: "raw_trip list" where
  "taxi_with_garbled_trip = garbled_trip # replicate 149999 text_trip"

definition taxi_with_garbled_free_ride :: "raw_trip list" where
  "taxi_with_garbled_free_ride = garbled_free_ride # replicate 149999 text_trip"

text \<open>
  The trip with payment code 0 from a location that the zone table does not list, the
  same trip with payment code 5, and the row of the result that both become.
\<close>

definition unknown_trip :: raw_trip where
  "unknown_trip = jfk_trip\<lparr>payment_type := 0, PULocationID := 999\<rparr>"


definition unknown_row :: "(datetime, string option) enriched" where
  "unknown_row = jfk_row\<lparr>payment_type := None, PULocationID := 999, zone_cols := null_zone\<rparr>"






text \<open>Two rows as they are before the join: the trip from JFK and the one from nowhere.\<close>

definition jfk_before_join :: "(datetime, int) derived" where
  "jfk_before_join = derive (parsed_row no_parser jfk_trip)"

definition unknown_before_join :: "(datetime, int) derived" where
  "unknown_before_join = derive (parsed_row no_parser unknown_trip)"

text \<open>
  The trip paid by credit card from a location that the zone table does not list, and
  150000 trips with their table: one from JFK, one unknown, the others of this kind.
\<close>

definition unzoned_trip :: raw_trip where
  "unzoned_trip = jfk_trip\<lparr>PULocationID := 999\<rparr>"

definition unzoned_row :: "(datetime, string option) enriched" where
  "unzoned_row = jfk_row\<lparr>PULocationID := 999, zone_cols := null_zone\<rparr>"

definition taxi_mostly_unzoned :: "raw_trip list" where
  "taxi_mostly_unzoned = jfk_trip # unknown_trip # replicate 149998 unzoned_trip"

definition table_mostly_unzoned :: table where
  "table_mostly_unzoned = jfk_row # unknown_row # replicate 149998 unzoned_row"

section \<open>Properties\<close>

subsection \<open>The pipeline, row by row\<close>

lemma clean_filter: "clean df = filter keeps df"
  unfolding clean_def keeps_def by (simp add: conj_commute)

lemma to_datetime_Inr:
  "to_datetime parse cs = Inr ts \<Longrightarrow> map (convert_cell parse) cs = map Some ts"
  by (induction cs arbitrary: ts) (auto split: option.splits sum.splits)

lemma to_datetime_Inl:
  "to_datetime parse cs = Inl e \<Longrightarrow>
     e = UnparseableDatetime \<and> (\<exists>c \<in> set cs. convert_cell parse c = None)"
  by (induction cs) (auto split: option.splits sum.splits)

lemma to_datetime_total:
  "to_datetime parse cs =
     (if \<exists>c \<in> set cs. convert_cell parse c = None then Inl UnparseableDatetime
      else Inr (map (parsed_cell parse) cs))"
  by (induction cs) (auto simp: parsed_cell_def split: option.splits sum.splits)

lemma map2_with_datetimes:
  "map2 (\<lambda>r (p, d). with_datetimes r p d) df
     (zip (map (parsed_cell parse) (map tpep_pickup_datetime df))
          (map (parsed_cell parse) (map tpep_dropoff_datetime df)))
   = map (parsed_row parse) df"
  by (induction df) (simp_all add: parsed_row_def)

lemma map2_with_payment_type:
  "map2 with_payment_type df (series_map payment_map (map payment_type df)) = map relabel df"
  by (induction df) (simp_all add: relabel_def series_map_def)

lemma transform_eq:
  "transform parse zones sampled =
     (if \<exists>r \<in> set (clean sampled). \<not> parseable parse r then Inl UnparseableDatetime
      else Inr (concat (map (enrich_row parse zones) (clean sampled))))"
proof -
  define df where "df = clean sampled"
  define pu where "pu = to_datetime parse (map tpep_pickup_datetime df)"
  define dr where "dr = to_datetime parse (map tpep_dropoff_datetime df)"
  have unfold: "transform parse zones sampled =
     (case pu of Inl e \<Rightarrow> Inl e
      | Inr pickup \<Rightarrow>
          (case dr of Inl e \<Rightarrow> Inl e
           | Inr dropoff \<Rightarrow>
               Inr (map relabel (merge (map derive
                 (map2 (\<lambda>r (p, d). with_datetimes r p d) df (zip pickup dropoff))) zones))))"
    by (simp add: transform_def Let_def df_def pu_def dr_def map2_with_payment_type
        split: sum.splits)
  have pu_eq: "pu = (if \<exists>r \<in> set df. convert_cell parse (tpep_pickup_datetime r) = None
                     then Inl UnparseableDatetime
                     else Inr (map (parsed_cell parse) (map tpep_pickup_datetime df)))"
    by (simp add: pu_def to_datetime_total)
  have dr_eq: "dr = (if \<exists>r \<in> set df. convert_cell parse (tpep_dropoff_datetime r) = None
                     then Inl UnparseableDatetime
                     else Inr (map (parsed_cell parse) (map tpep_dropoff_datetime df)))"
    by (simp add: dr_def to_datetime_total)
  have rows: "map relabel (merge (map derive (map (parsed_row parse) df)) zones)
          = concat (map (enrich_row parse zones) df)"
    by (simp add: merge_def enrich_row_def [abs_def] map_concat comp_def)
  show ?thesis
  proof (cases "\<exists>r \<in> set df. \<not> parseable parse r")
    case True
    then have "pu = Inl UnparseableDatetime \<or>
               (\<exists>p. pu = Inr p) \<and> dr = Inl UnparseableDatetime"
      unfolding pu_eq dr_eq by (auto simp: parseable_def)
    then show ?thesis using True unfolding unfold df_def [symmetric] by auto
  next
    case False
    then have "pu = Inr (map (parsed_cell parse) (map tpep_pickup_datetime df))"
      and "dr = Inr (map (parsed_cell parse) (map tpep_dropoff_datetime df))"
      unfolding pu_eq dr_eq by (auto simp: parseable_def)
    then show ?thesis using False
      unfolding unfold df_def [symmetric]
      by (simp add: map2_with_datetimes rows del: map_map)
  qed
qed

subsection \<open>Sampling with a seed\<close>

lemma sample_df_seeded:
  "sample_df R n (Some seed) g df = (Inr s, g') \<Longrightarrow> g' = g \<and> length s \<le> n \<and> set s \<subseteq> set df"
  by (auto simp: sample_df_def choice_def take_rows_def list_all_iff
      split: prod.splits sum.splits if_splits)

lemma sample_df_seeded_fst:
  assumes "fst (sample_df R n (Some seed) g df) = Inr s"
  shows "length s \<le> n" and "set s \<subseteq> set df"
proof -
  obtain g' where "sample_df R n (Some seed) g df = (Inr s, g')"
    using assms by (cases "sample_df R n (Some seed) g df") simp
  then show "length s \<le> n" and "set s \<subseteq> set df"
    by (simp_all add: sample_df_seeded)
qed

lemma sample_df_seeded_state: "snd (sample_df R n (Some seed) g df) = g"
  by (simp add: sample_df_def split: prod.splits sum.splits)

lemma sample_df_seeded_indep:
  "fst (sample_df R n (Some seed) g1 df) = fst (sample_df R n (Some seed) g2 df)"
  by (simp add: sample_df_def split: prod.splits sum.splits)

subsection \<open>The result of \<open>load_data\<close>\<close>

lemma load_data_cases:
  "load_data R parse taxi zones g =
     (case fst (sample_df R 150000 (Some 42) g taxi) of
        Inl e \<Rightarrow> (Inl e, snd (sample_df R 150000 (Some 42) g taxi))
      | Inr df \<Rightarrow> (transform parse zones df, snd (sample_df R 150000 (Some 42) g taxi)))"
  unfolding load_data_def by (cases "sample_df R 150000 (Some 42) g taxi") (simp split: sum.splits)

lemma load_data_Inr:
  assumes "fst (load_data R parse taxi zones g) = Inr out"
  obtains s where "fst (sample_df R 150000 (Some 42) g taxi) = Inr s"
    and "transform parse zones s = Inr out"
  using assms unfolding load_data_cases by (cases "fst (sample_df R 150000 (Some 42) g taxi)") simp_all

lemma load_data_rows:
  assumes "fst (load_data R parse taxi zones g) = Inr out"
  obtains s where "fst (sample_df R 150000 (Some 42) g taxi) = Inr s"
    and "length s \<le> 150000" and "set s \<subseteq> set taxi"
    and "\<forall>r \<in> set (clean s). parseable parse r"
    and "out = concat (map (enrich_row parse zones) (clean s))"
proof -
  from assms obtain s where s: "fst (sample_df R 150000 (Some 42) g taxi) = Inr s"
    and t: "transform parse zones s = Inr out"
    by (rule load_data_Inr)
  have len: "length s \<le> 150000" and sub: "set s \<subseteq> set taxi"
    by (rule sample_df_seeded_fst [OF s])+
  have ok: "\<forall>r \<in> set (clean s). parseable parse r"
    using t unfolding transform_eq by (simp split: if_splits)
  have rows: "out = concat (map (enrich_row parse zones) (clean s))"
    using t unfolding transform_eq by (simp split: if_splits)
  from s len sub ok rows show thesis
    by (rule that)
qed

lemma enrich_row_cells:
  assumes "e \<in> set (enrich_row parse zones r)"
  shows "trip_distance e = trip_distance r" "fare_amount e = fare_amount r"
    "total_amount e = total_amount r" "PULocationID e = PULocationID r"
    "tpep_pickup_datetime e = parsed_cell parse (tpep_pickup_datetime r)"
    "tpep_dropoff_datetime e = parsed_cell parse (tpep_dropoff_datetime r)"
    "payment_type e = payment_map (payment_type r)"
    "pickup_hour e = dt_hour (tpep_pickup_datetime e)"
    "pickup_day_of_week e = dt_day_name (tpep_pickup_datetime e)"
    "trip_duration_minutes e = div_float (total_seconds
       (sub_datetime (tpep_dropoff_datetime e) (tpep_pickup_datetime e))) 60"
  using assms
  by (auto simp: enrich_row_def merge_row_def relabel_def with_payment_type_def derive_def
      parsed_row_def with_datetimes_def trip.defs derived.defs enriched.defs
      split: list.splits)

subsection \<open>Evaluating the example inputs\<close>

lemma take_rows_all: "take_rows df [0..<length df] = Inr df"
  by (simp add: take_rows_def list_all_iff map_nth)

lemma choice_identity_rng:
  "n \<le> length df \<Longrightarrow> length df \<le> n \<Longrightarrow>
   choice identity_rng rs (length df) n = (Inr [0..<length df], Suc rs)"
  by (simp add: choice_def identity_rng_def)

lemma sample_identity_rng:
  assumes "length df = 150000"
  shows "sample_df identity_rng 150000 (Some 42) g df = (Inr df, g)"
proof -
  have "choice identity_rng (RandomState identity_rng 42) (length df) 150000
        = (Inr [0..<length df], Suc (RandomState identity_rng 42))"
    by (rule choice_identity_rng) (simp_all only: assms order_refl)
  then show ?thesis
    by (simp only: sample_df_def option.case prod.case sum.case take_rows_all)
qed

lemma load_data_identity_rng:
  "length taxi = 150000 \<Longrightarrow>
     load_data identity_rng parse taxi zones g = (transform parse zones taxi, g)"
  by (simp add: load_data_def sample_identity_rng)

lemma keeps_jfk_trip: "keeps jfk_trip" "\<not> keeps free_ride"
  by (simp_all add: keeps_def jfk_trip_def free_ride_def)

lemma parseable_jfk_trip: "parseable parse jfk_trip"
  by (simp add: parseable_def jfk_trip_def)

lemma enrich_jfk_trip: "enrich_row parse [jfk_zone] jfk_trip = [jfk_row]"
  by (simp add: enrich_row_def merge_row_def matches_def relabel_def with_payment_type_def
      derive_def parsed_row_def parsed_cell_def with_datetimes_def trip.defs derived.defs
      enriched.defs jfk_trip_def jfk_zone_def jfk_row_def payment_map_def monday_0830_def
      ns_per_second_def ns_per_hour_def ns_per_day_def day_names_def)

lemma load_taxi_with_free_ride:
  "fst (load_data identity_rng parse taxi_with_free_ride [jfk_zone] g)
     = Inr (replicate 149999 jfk_row)"
  by (simp add: load_data_identity_rng taxi_with_free_ride_def transform_eq clean_filter
      keeps_jfk_trip parseable_jfk_trip enrich_jfk_trip map_replicate_const)

subsection \<open>Payment labels\<close>

text \<open>
  C4. The payment map sends code 1 to "Credit Card", 2 to "Cash", 3 to "No Charge" and
  4 to "Dispute"; every other code has no label. Mapping a column looks each cell up on
  its own and always returns a column: a code without a label becomes a null, it raises
  nothing.
\<close>

theorem payment_map_labels:
  "payment_map 1 = Some ''Credit Card'' \<and> payment_map 2 = Some ''Cash'' \<and>
   payment_map 3 = Some ''No Charge'' \<and> payment_map 4 = Some ''Dispute'' \<and>
   (\<forall>c. c \<notin> {1, 2, 3, 4} \<longrightarrow> payment_map c = None) \<and>
   (\<forall>col. series_map payment_map col = map payment_map col)"
  by (simp add: payment_map_def series_map_def)

theorem payment_map_labels_witness:
  "(5::int) \<notin> {1, 2, 3, 4} \<and> payment_map 5 = None \<and>
   series_map payment_map [1, 5, 0] = [Some ''Credit Card'', None, None]"
proof -
  have out: "(5::int) \<notin> {1, 2, 3, 4}" "(0::int) \<notin> {1, 2, 3, 4}"
    by simp_all
  from payment_map_labels out show ?thesis
    by simp
qed

subsection \<open>Cleaning\<close>

text \<open>
  C1. Every row of the table that \<open>load_data\<close> returns has a trip distance and a fare
  amount greater than zero, and it stems from a source row with these same two values:
  a source row that violates either condition is dropped and is no row of the result.
\<close>

theorem cleaning_invariant:
  assumes "fst (load_data R parse taxi zones g) = Inr out"
  shows "\<forall>e \<in> set out.
           gt_zero (trip_distance e) \<and> gt_zero (fare_amount e) \<and>
           (\<exists>r \<in> set taxi.
              trip_distance r = trip_distance e \<and> fare_amount r = fare_amount e \<and>
              total_amount r = total_amount e \<and> PULocationID r = PULocationID e)"
proof
  fix e
  assume e: "e \<in> set out"
  from assms obtain s where sub: "set s \<subseteq> set taxi"
    and rows: "out = concat (map (enrich_row parse zones) (clean s))"
    by (rule load_data_rows)
  from e rows obtain r where r: "r \<in> set (clean s)" and er: "e \<in> set (enrich_row parse zones r)"
    by auto
  from r have "r \<in> set s" and "keeps r"
    by (simp_all add: clean_filter)
  with sub have "r \<in> set taxi" and "gt_zero (trip_distance r)" and "gt_zero (fare_amount r)"
    by (auto simp: keeps_def)
  moreover note enrich_row_cells(1-4) [OF er]
  ultimately show "gt_zero (trip_distance e) \<and> gt_zero (fare_amount e) \<and>
           (\<exists>r \<in> set taxi.
              trip_distance r = trip_distance e \<and> fare_amount r = fare_amount e \<and>
              total_amount r = total_amount e \<and> PULocationID r = PULocationID e)"
    by auto
qed

theorem cleaning_invariant_witness:
  "fst (load_data identity_rng no_parser taxi_with_free_ride [jfk_zone] 0)
     = Inr (replicate 149999 jfk_row) \<and>
   jfk_row \<in> set (replicate 149999 jfk_row) \<and>
   gt_zero (trip_distance jfk_row) \<and> gt_zero (fare_amount jfk_row)"
proof -
  have run: "fst (load_data identity_rng no_parser taxi_with_free_ride [jfk_zone] 0)
      = Inr (replicate 149999 jfk_row)"
    by (rule load_taxi_with_free_ride)
  have row: "jfk_row \<in> set (replicate 149999 jfk_row)"
    by simp
  from cleaning_invariant [OF run] row
  have "gt_zero (trip_distance jfk_row) \<and> gt_zero (fare_amount jfk_row)"
    by blast
  with run row show ?thesis
    by blast
qed

subsection \<open>Row counts\<close>

lemma length_merge_row_ge: "1 \<le> length (merge_row zones r)"
  by (simp add: merge_row_def split: list.splits)

lemma matches_distinct:
  "distinct (map LocationID zones) \<Longrightarrow> length (matches zones k) \<le> 1"
proof (induction zones)
  case Nil
  then show ?case by (simp add: matches_def)
next
  case (Cons z zones)
  have "LocationID z = Some k \<Longrightarrow> matches zones k = []"
    using Cons.prems by (force simp: matches_def filter_empty_conv)
  with Cons show ?case
    by (auto simp: matches_def)
qed

lemma length_merge_row_distinct:
  assumes "distinct (map LocationID zones)"
  shows "length (merge_row zones r) = 1"
proof -
  have "length (matches zones (PULocationID r)) \<le> 1"
    using assms by (rule matches_distinct)
  then show ?thesis
    by (cases "matches zones (PULocationID r)") (simp_all add: merge_row_def)
qed

lemma length_enrich_rows_distinct:
  assumes "distinct (map LocationID zones)"
  shows "length (concat (map (enrich_row parse zones) df)) = length df"
  by (induction df) (simp_all add: enrich_row_def length_merge_row_distinct [OF assms])

text \<open>
  C6. The location id is the unique key of the zone table: no two of its rows have the
  same one. Then the table that \<open>load_data\<close> returns has at most 150000 rows and at
  most as many rows as the sample has after the two cleaning filters (it has exactly as
  many), and the cleaned sample is the sample less the rows that fail a filter.
\<close>

theorem row_count_bound:
  assumes "distinct (map LocationID zones)"
    and "fst (load_data R parse taxi zones g) = Inr out"
  shows "length out \<le> 150000 \<and>
         (\<exists>s. fst (sample_df R 150000 (Some 42) g taxi) = Inr s \<and>
              length out = length (clean s) \<and>
              length (clean s) + length (filter (\<lambda>r. \<not> (gt_zero (trip_distance r) \<and>
                 gt_zero (fare_amount r))) s) = length s \<and>
              length s \<le> 150000)"
proof -
  from assms(2) obtain s where s: "fst (sample_df R 150000 (Some 42) g taxi) = Inr s"
    and len: "length s \<le> 150000"
    and rows: "out = concat (map (enrich_row parse zones) (clean s))"
    by (rule load_data_rows)
  have out: "length out = length (clean s)"
    unfolding rows by (rule length_enrich_rows_distinct [OF assms(1)])
  have split: "length (clean s) + length (filter (\<lambda>r. \<not> (gt_zero (trip_distance r) \<and>
                 gt_zero (fare_amount r))) s) = length s"
    unfolding clean_filter keeps_def by (rule sum_length_filter_compl)
  from split out len have "length out \<le> 150000"
    by linarith
  with s out split len show ?thesis
    by blast
qed

theorem row_count_bound_witness:
  "distinct (map LocationID [jfk_zone]) \<and>
   fst (load_data identity_rng no_parser taxi_with_free_ride [jfk_zone] 0)
     = Inr (replicate 149999 jfk_row) \<and>
   length (replicate 149999 jfk_row) \<le> 150000"
proof -
  have zones: "distinct (map LocationID [jfk_zone])"
    by simp
  have run: "fst (load_data identity_rng no_parser taxi_with_free_ride [jfk_zone] 0)
      = Inr (replicate 149999 jfk_row)"
    by (rule load_taxi_with_free_ride)
  from row_count_bound [OF zones run]
  have "length (replicate 149999 jfk_row) \<le> 150000"
    by (rule conjunct1)
  with zones run show ?thesis
    by (intro conjI)
qed

subsection \<open>Derived columns\<close>

lemma hour_range: "0 \<le> (t div ns_per_hour) mod 24 \<and> (t div ns_per_hour) mod 24 \<le> 23"
proof -
  have "0 \<le> (t div ns_per_hour) mod 24" and "(t div ns_per_hour) mod 24 < 24"
    by simp_all
  then show ?thesis
    by linarith
qed

lemma keeps_undated_trip: "keeps undated_trip"
  by (simp add: keeps_def undated_trip_def jfk_trip_def)

lemma parseable_undated_trip: "parseable parse undated_trip"
  by (simp add: parseable_def undated_trip_def jfk_trip_def)

lemma enrich_undated_trip: "enrich_row parse [jfk_zone] undated_trip = [undated_row]"
  by (simp add: enrich_row_def merge_row_def matches_def relabel_def with_payment_type_def
      derive_def parsed_row_def parsed_cell_def with_datetimes_def trip.defs derived.defs
      enriched.defs undated_trip_def undated_row_def jfk_trip_def jfk_zone_def jfk_row_def
      payment_map_def)

text \<open>
  C7 as the spec states it: every row has a pickup hour between 0 and 23 and a weekday
  name. A trip whose pickup timestamp is null passes \<open>to_datetime\<close> as NaT, and its row
  has neither an hour nor a weekday name.
\<close>

theorem pickup_hour_counterexample:
  "fst (load_data identity_rng no_parser (replicate 150000 undated_trip) [jfk_zone] 0)
     = Inr (replicate 150000 undated_row) \<and>
   tpep_pickup_datetime undated_row = None \<and>
   pickup_hour undated_row = None \<and> pickup_day_of_week undated_row = None"
  by (simp add: load_data_identity_rng transform_eq clean_filter keeps_undated_trip
      parseable_undated_trip enrich_undated_trip map_replicate_const undated_row_def)

text \<open>
  C7, amended. In every row of the table that \<open>load_data\<close> returns, the pickup hour and
  the weekday name are those of the parsed pickup timestamp: when the timestamp is not
  null, the hour is its hour of the day, between 0 and 23, and the weekday is the name of
  its day of the week; when the timestamp is null, both are null.
\<close>

theorem pickup_hour_and_day:
  assumes "fst (load_data R parse taxi zones g) = Inr out"
  shows "\<forall>e \<in> set out.
           pickup_hour e = dt_hour (tpep_pickup_datetime e) \<and>
           pickup_day_of_week e = dt_day_name (tpep_pickup_datetime e) \<and>
           (\<forall>t. tpep_pickup_datetime e = Some t \<longrightarrow>
              pickup_hour e = Some ((t div ns_per_hour) mod 24) \<and>
              0 \<le> (t div ns_per_hour) mod 24 \<and> (t div ns_per_hour) mod 24 \<le> 23 \<and>
              pickup_day_of_week e = Some (day_names ! nat ((t div ns_per_day + 3) mod 7))) \<and>
           (tpep_pickup_datetime e = None \<longrightarrow>
              pickup_hour e = None \<and> pickup_day_of_week e = None)"
proof
  fix e
  assume e: "e \<in> set out"
  from assms obtain s where rows: "out = concat (map (enrich_row parse zones) (clean s))"
    by (rule load_data_rows)
  from e rows obtain r where er: "e \<in> set (enrich_row parse zones r)"
    by auto
  have hour: "pickup_hour e = dt_hour (tpep_pickup_datetime e)"
    and day: "pickup_day_of_week e = dt_day_name (tpep_pickup_datetime e)"
    by (rule enrich_row_cells [OF er])+
  show "pickup_hour e = dt_hour (tpep_pickup_datetime e) \<and>
           pickup_day_of_week e = dt_day_name (tpep_pickup_datetime e) \<and>
           (\<forall>t. tpep_pickup_datetime e = Some t \<longrightarrow>
              pickup_hour e = Some ((t div ns_per_hour) mod 24) \<and>
              0 \<le> (t div ns_per_hour) mod 24 \<and> (t div ns_per_hour) mod 24 \<le> 23 \<and>
              pickup_day_of_week e = Some (day_names ! nat ((t div ns_per_day + 3) mod 7))) \<and>
           (tpep_pickup_datetime e = None \<longrightarrow>
              pickup_hour e = None \<and> pickup_day_of_week e = None)"
    using hour day hour_range by simp
qed

theorem pickup_hour_and_day_witness:
  "fst (load_data identity_rng no_parser taxi_with_free_ride [jfk_zone] 0)
     = Inr (replicate 149999 jfk_row) \<and>
   jfk_row \<in> set (replicate 149999 jfk_row) \<and>
   tpep_pickup_datetime jfk_row = Some monday_0830 \<and>
   pickup_hour jfk_row = Some 8 \<and> pickup_day_of_week jfk_row = Some ''Monday''"
proof -
  have run: "fst (load_data identity_rng no_parser taxi_with_free_ride [jfk_zone] 0)
      = Inr (replicate 149999 jfk_row)"
    by (rule load_taxi_with_free_ride)
  have row: "jfk_row \<in> set (replicate 149999 jfk_row)"
    by simp
  have pickup: "tpep_pickup_datetime jfk_row = Some monday_0830"
    by (simp add: jfk_row_def)
  from pickup_hour_and_day [OF run] row pickup
  have "pickup_hour jfk_row = Some ((monday_0830 div ns_per_hour) mod 24)"
    and "pickup_day_of_week jfk_row = Some (day_names ! nat ((monday_0830 div ns_per_day + 3) mod 7))"
    by blast+
  then have "pickup_hour jfk_row = Some 8" and "pickup_day_of_week jfk_row = Some ''Monday''"
    by (simp_all add: monday_0830_def ns_per_second_def ns_per_hour_def ns_per_day_def
        day_names_def)
  with run row pickup show ?thesis
    by (intro conjI)
qed

lemma keeps_backwards_trip: "keeps backwards_trip"
  by (simp add: keeps_def backwards_trip_def jfk_trip_def)

lemma parseable_backwards_trip: "parseable parse backwards_trip"
  by (simp add: parseable_def backwards_trip_def jfk_trip_def)

lemma enrich_backwards_trip: "enrich_row parse [jfk_zone] backwards_trip = [backwards_row]"
  by (simp add: enrich_row_def merge_row_def matches_def relabel_def with_payment_type_def
      derive_def parsed_row_def parsed_cell_def with_datetimes_def trip.defs derived.defs
      enriched.defs backwards_trip_def backwards_row_def jfk_trip_def jfk_zone_def jfk_row_def
      payment_map_def monday_0830_def ns_per_second_def ns_per_hour_def ns_per_day_def
      day_names_def)

lemma load_backwards_trips:
  "fst (load_data identity_rng parse (replicate 150000 backwards_trip) [jfk_zone] g)
     = Inr (replicate 150000 backwards_row)"
  by (simp add: load_data_identity_rng transform_eq clean_filter keeps_backwards_trip
      parseable_backwards_trip enrich_backwards_trip map_replicate_const)

lemma enrich_row_nonempty: "enrich_row parse zones r \<noteq> []"
  by (simp add: enrich_row_def merge_row_def split: list.splits)

text \<open>
  C3. In every row of the table that \<open>load_data\<close> returns, the trip duration in minutes
  is the dropoff timestamp minus the pickup timestamp, in seconds, divided by 60 (null
  when either timestamp is null). Nothing bounds it: every sampled trip with a positive
  distance and fare and two timestamps has a row with this duration in the table,
  whatever the two timestamps are.
\<close>

theorem trip_duration_minutes_formula:
  assumes "fst (load_data R parse taxi zones g) = Inr out"
  shows "(\<forall>e \<in> set out.
            trip_duration_minutes e =
              (case (tpep_dropoff_datetime e, tpep_pickup_datetime e) of
                 (Some d, Some p) \<Rightarrow>
                   Some (real_of_int (d - p) / real_of_int ns_per_second / 60)
               | _ \<Rightarrow> None)) \<and>
         (\<forall>s r p d. fst (sample_df R 150000 (Some 42) g taxi) = Inr s \<and> r \<in> set s \<and>
            gt_zero (trip_distance r) \<and> gt_zero (fare_amount r) \<and>
            tpep_pickup_datetime r = Stamp p \<and> tpep_dropoff_datetime r = Stamp d \<longrightarrow>
            (\<exists>e \<in> set out.
               tpep_pickup_datetime e = Some p \<and> tpep_dropoff_datetime e = Some d \<and>
               trip_duration_minutes e =
                 Some (real_of_int (d - p) / real_of_int ns_per_second / 60)))"
proof -
  from assms obtain s where s: "fst (sample_df R 150000 (Some 42) g taxi) = Inr s"
    and rows: "out = concat (map (enrich_row parse zones) (clean s))"
    by (rule load_data_rows)
  have formula: "trip_duration_minutes e =
      (case (tpep_dropoff_datetime e, tpep_pickup_datetime e) of
         (Some d, Some p) \<Rightarrow> Some (real_of_int (d - p) / real_of_int ns_per_second / 60)
       | _ \<Rightarrow> None)" if "e \<in> set out" for e
  proof -
    from that rows obtain r where er: "e \<in> set (enrich_row parse zones r)"
      by auto
    show ?thesis
      unfolding enrich_row_cells(10) [OF er]
      by (cases "tpep_dropoff_datetime e"; cases "tpep_pickup_datetime e") simp_all
  qed
  have kept: "\<exists>e \<in> set out.
      tpep_pickup_datetime e = Some p \<and> tpep_dropoff_datetime e = Some d \<and>
      trip_duration_minutes e = Some (real_of_int (d - p) / real_of_int ns_per_second / 60)"
    if s': "fst (sample_df R 150000 (Some 42) g taxi) = Inr s'" and r: "r \<in> set s'"
      and pos: "gt_zero (trip_distance r)" "gt_zero (fare_amount r)"
      and stamps: "tpep_pickup_datetime r = Stamp p" "tpep_dropoff_datetime r = Stamp d"
    for s' r p d
  proof -
    from s s' have "s' = s" by simp
    with r pos have "r \<in> set (clean s)"
      by (simp add: clean_filter keeps_def)
    moreover obtain e where er: "e \<in> set (enrich_row parse zones r)"
      using enrich_row_nonempty [of parse zones r] by (cases "enrich_row parse zones r") auto
    ultimately have out: "e \<in> set out"
      unfolding rows by auto
    have "tpep_pickup_datetime e = Some p" and "tpep_dropoff_datetime e = Some d"
      unfolding enrich_row_cells(5,6) [OF er] stamps by (simp_all add: parsed_cell_def)
    with formula [OF out] out show ?thesis
      by auto
  qed
  from formula kept show ?thesis
    by blast
qed

theorem trip_duration_minutes_formula_witness:
  "fst (load_data identity_rng no_parser (replicate 150000 backwards_trip) [jfk_zone] 0)
     = Inr (replicate 150000 backwards_row) \<and>
   backwards_row \<in> set (replicate 150000 backwards_row) \<and>
   tpep_pickup_datetime backwards_row = Some monday_0830 \<and>
   tpep_dropoff_datetime backwards_row = Some (monday_0830 - 600 * ns_per_second) \<and>
   trip_duration_minutes backwards_row = Some (- 10)"
proof -
  have run: "fst (load_data identity_rng no_parser (replicate 150000 backwards_trip)
      [jfk_zone] 0) = Inr (replicate 150000 backwards_row)"
    by (rule load_backwards_trips)
  have row: "backwards_row \<in> set (replicate 150000 backwards_row)"
    by simp
  have pickup: "tpep_pickup_datetime backwards_row = Some monday_0830"
    and dropoff: "tpep_dropoff_datetime backwards_row = Some (monday_0830 - 600 * ns_per_second)"
    by (simp_all add: backwards_row_def jfk_row_def)
  from trip_duration_minutes_formula [OF run] row
  have "trip_duration_minutes backwards_row =
      (case (tpep_dropoff_datetime backwards_row, tpep_pickup_datetime backwards_row) of
         (Some d, Some p) \<Rightarrow> Some (real_of_int (d - p) / real_of_int ns_per_second / 60)
       | _ \<Rightarrow> None)"
    by blast
  then have "trip_duration_minutes backwards_row = Some (- 10)"
    unfolding pickup dropoff by (simp add: ns_per_second_def)
  with run row pickup dropoff show ?thesis
    by (intro conjI)
qed

subsection \<open>Unparseable timestamps\<close>

lemma keeps_garbled: "keeps text_trip" "keeps garbled_trip" "\<not> keeps garbled_free_ride"
  by (simp_all add: keeps_def text_trip_def garbled_trip_def garbled_free_ride_def
      jfk_trip_def)

lemma garbled_pickup:
  "convert_cell text_parser (tpep_pickup_datetime garbled_trip) = None"
  "convert_cell text_parser (tpep_pickup_datetime garbled_free_ride) = None"
  by (simp_all add: garbled_trip_def garbled_free_ride_def text_parser_def)

lemma parseable_text_trip: "parseable text_parser text_trip"
  by (simp add: parseable_def text_trip_def text_parser_def)

lemma enrich_text_trip: "enrich_row text_parser [jfk_zone] text_trip = [jfk_row]"
  by (simp add: enrich_row_def merge_row_def matches_def relabel_def with_payment_type_def
      derive_def parsed_row_def parsed_cell_def with_datetimes_def trip.defs derived.defs
      enriched.defs text_trip_def text_parser_def jfk_trip_def jfk_zone_def jfk_row_def
      payment_map_def monday_0830_def ns_per_second_def ns_per_hour_def ns_per_day_def
      day_names_def)

lemma length_taxi_with_garbled:
  "length taxi_with_garbled_trip = 150000" "length taxi_with_garbled_free_ride = 150000"
  by (simp_all add: taxi_with_garbled_trip_def taxi_with_garbled_free_ride_def)

text \<open>
  C9 as the spec states it: an unparseable pickup or dropoff field anywhere in the sample
  makes \<open>load_data\<close> fail. The timestamps are parsed after the cleaning filters, so an
  unparseable field in a row that the filters drop is never parsed: the sample below
  starts with such a row, and \<open>load_data\<close> returns the table of the other 149999 trips.
\<close>

theorem unparseable_counterexample:
  "fst (sample_df identity_rng 150000 (Some 42) 0 taxi_with_garbled_free_ride)
     = Inr taxi_with_garbled_free_ride \<and>
   garbled_free_ride \<in> set taxi_with_garbled_free_ride \<and>
   convert_cell text_parser (tpep_pickup_datetime garbled_free_ride) = None \<and>
   fst (load_data identity_rng text_parser taxi_with_garbled_free_ride [jfk_zone] 0)
     = Inr (replicate 149999 jfk_row)"
proof -
  have "fst (load_data identity_rng text_parser taxi_with_garbled_free_ride [jfk_zone] 0)
      = Inr (replicate 149999 jfk_row)"
    unfolding load_data_identity_rng [OF length_taxi_with_garbled(2)]
    by (simp add: taxi_with_garbled_free_ride_def transform_eq clean_filter keeps_garbled
        parseable_text_trip enrich_text_trip map_replicate_const)
  moreover have "garbled_free_ride \<in> set taxi_with_garbled_free_ride"
    by (simp add: taxi_with_garbled_free_ride_def)
  ultimately show ?thesis
    by (simp add: sample_identity_rng [OF length_taxi_with_garbled(2)] garbled_pickup)
qed

text \<open>
  C9, amended. If a pickup or dropoff field of a sampled row that passes the two cleaning
  filters is unparseable as a timestamp, \<open>load_data\<close> fails with an error and returns no
  table.
\<close>

theorem unparseable_is_fatal:
  assumes "fst (sample_df R 150000 (Some 42) g taxi) = Inr s"
    and "r \<in> set s"
    and "gt_zero (trip_distance r)" and "gt_zero (fare_amount r)"
    and "convert_cell parse (tpep_pickup_datetime r) = None \<or>
         convert_cell parse (tpep_dropoff_datetime r) = None"
  shows "fst (load_data R parse taxi zones g) = Inl UnparseableDatetime"
proof -
  from assms(2-4) have "r \<in> set (clean s)"
    by (simp add: clean_filter keeps_def)
  moreover from assms(5) have "\<not> parseable parse r"
    by (auto simp: parseable_def)
  ultimately have "transform parse zones s = Inl UnparseableDatetime"
    unfolding transform_eq by auto
  with assms(1) show ?thesis
    unfolding load_data_cases by simp
qed

theorem unparseable_is_fatal_witness:
  "fst (sample_df identity_rng 150000 (Some 42) 0 taxi_with_garbled_trip)
     = Inr taxi_with_garbled_trip \<and>
   garbled_trip \<in> set taxi_with_garbled_trip \<and>
   gt_zero (trip_distance garbled_trip) \<and> gt_zero (fare_amount garbled_trip) \<and>
   convert_cell text_parser (tpep_pickup_datetime garbled_trip) = None \<and>
   fst (load_data identity_rng text_parser taxi_with_garbled_trip [jfk_zone] 0)
     = Inl UnparseableDatetime"
proof -
  have sample: "fst (sample_df identity_rng 150000 (Some 42) 0 taxi_with_garbled_trip)
      = Inr taxi_with_garbled_trip"
    by (simp add: sample_identity_rng [OF length_taxi_with_garbled(1)])
  have row: "garbled_trip \<in> set taxi_with_garbled_trip"
    by (simp add: taxi_with_garbled_trip_def)
  have pos: "gt_zero (trip_distance garbled_trip)" "gt_zero (fare_amount garbled_trip)"
    using keeps_garbled(2) by (simp_all add: keeps_def)
  have bad: "convert_cell text_parser (tpep_pickup_datetime garbled_trip) = None"
    by (rule garbled_pickup)
  have "fst (load_data identity_rng text_parser taxi_with_garbled_trip [jfk_zone] 0)
      = Inl UnparseableDatetime"
    by (rule unparseable_is_fatal [OF sample row pos disjI1 [OF bad]])
  with sample row pos bad show ?thesis
    by (intro conjI)
qed

subsection \<open>The zone join\<close>

lemma merge_row_truncate: "j \<in> set (merge_row zones r) \<Longrightarrow> derived.truncate j = r"
  by (auto simp: merge_row_def derived.defs enriched.defs split: list.splits)

lemma merge_row_unmatched:
  assumes "\<forall>z \<in> set zones. LocationID z \<noteq> Some (PULocationID r)"
  shows "merge_row zones r = [derived.extend r (enriched.fields null_zone)]"
proof -
  have "matches zones (PULocationID r) = []"
    using assms by (simp add: matches_def filter_empty_conv)
  then show ?thesis
    by (simp add: merge_row_def)
qed

lemma merge_row_nonempty: "merge_row zones r \<noteq> []"
  by (simp add: merge_row_def split: list.splits)

lemma length_merge_ge: "length df \<le> length (merge df zones)"
proof (induction df)
  case Nil
  then show ?case by (simp add: merge_def)
next
  case (Cons r df)
  have "1 \<le> length (merge_row zones r)"
    by (rule length_merge_row_ge)
  with Cons show ?case
    by (simp add: merge_def)
qed

lemma truncate_PULocationID: "PULocationID (derived.truncate j) = PULocationID j"
  by (simp add: derived.defs)

lemma enriched_surjective:
  fixes j :: "('t, 'p) enriched"
  shows "derived.extend (derived.truncate j) (enriched.fields (zone_cols j)) = j"
  by (cases j) (simp add: derived.defs enriched.defs)

text \<open>
  C5. The join is a left outer join. Every row that enters it is the trip part of a row
  that leaves it, every row that leaves it has the trip part of a row that entered,
  unchanged, and the rows of a trip whose pickup location matches no zone have null zone
  columns; no row is dropped.
\<close>

theorem left_join_complete:
  "(\<forall>r \<in> set df. \<exists>j \<in> set (merge df zones). derived.truncate j = r) \<and>
   (\<forall>j \<in> set (merge df zones). derived.truncate j \<in> set df) \<and>
   (\<forall>j \<in> set (merge df zones).
      (\<forall>z \<in> set zones. LocationID z \<noteq> Some (PULocationID j)) \<longrightarrow>
      zone_cols j = null_zone) \<and>
   length df \<le> length (merge df zones)"
proof (intro conjI ballI impI)
  fix r
  assume r: "r \<in> set df"
  obtain j where j: "j \<in> set (merge_row zones r)"
    using merge_row_nonempty [of zones r] by (cases "merge_row zones r") auto
  with r have "j \<in> set (merge df zones)"
    by (auto simp: merge_def)
  with merge_row_truncate [OF j] show "\<exists>j \<in> set (merge df zones). derived.truncate j = r"
    by blast
next
  fix j
  assume "j \<in> set (merge df zones)"
  then obtain r where "r \<in> set df" and "j \<in> set (merge_row zones r)"
    by (auto simp: merge_def)
  then show "derived.truncate j \<in> set df"
    by (simp add: merge_row_truncate)
next
  fix j
  assume j: "j \<in> set (merge df zones)"
    and unmatched: "\<forall>z \<in> set zones. LocationID z \<noteq> Some (PULocationID j)"
  from j obtain r where jr: "j \<in> set (merge_row zones r)"
    by (auto simp: merge_def)
  have "PULocationID j = PULocationID r"
    using merge_row_truncate [OF jr] by (metis truncate_PULocationID)
  with unmatched have "merge_row zones r = [derived.extend r (enriched.fields null_zone)]"
    by (simp add: merge_row_unmatched)
  with jr show "zone_cols j = null_zone"
    by (simp add: derived.defs enriched.defs)
next
  show "length df \<le> length (merge df zones)"
    by (rule length_merge_ge)
qed

theorem left_join_complete_witness:
  "unknown_before_join \<in> set [jfk_before_join, unknown_before_join] \<and>
   LocationID jfk_zone \<noteq> Some (PULocationID unknown_before_join) \<and>
   derived.extend unknown_before_join (enriched.fields null_zone)
     \<in> set (merge [jfk_before_join, unknown_before_join] [jfk_zone])"
proof -
  let ?df = "[jfk_before_join, unknown_before_join]"
  have row: "unknown_before_join \<in> set ?df"
    by simp
  have id: "PULocationID unknown_before_join = 999"
    by (simp add: unknown_before_join_def derive_def parsed_row_def with_datetimes_def
        unknown_trip_def trip.defs)
  have unmatched: "LocationID jfk_zone \<noteq> Some (PULocationID unknown_before_join)"
    unfolding id by (simp add: jfk_zone_def)
  from left_join_complete [of ?df "[jfk_zone]"] row
  obtain j where j: "j \<in> set (merge ?df [jfk_zone])"
    and trip: "derived.truncate j = unknown_before_join"
    by blast
  from trip have "PULocationID j = PULocationID unknown_before_join"
    by (metis truncate_PULocationID)
  with unmatched have "\<forall>z \<in> set [jfk_zone]. LocationID z \<noteq> Some (PULocationID j)"
    by simp
  with left_join_complete [of ?df "[jfk_zone]"] j have "zone_cols j = null_zone"
    by blast
  with trip enriched_surjective [of j]
  have "j = derived.extend unknown_before_join (enriched.fields null_zone)"
    by simp
  with j row unmatched show ?thesis
    by blast
qed

subsection \<open>The payment column of the result\<close>
















subsection \<open>Reproducibility\<close>

lemma load_data_indep:
  "fst (load_data R parse taxi zones g1) = fst (load_data R parse taxi zones g2)"
  unfolding load_data_cases sample_df_seeded_indep [of R 150000 42 g1 taxi g2]
  by (simp split: sum.splits)

lemma load_data_state: "snd (load_data R parse taxi zones g) = g"
  unfolding load_data_cases by (simp add: sample_df_seeded_state split: sum.splits)

lemma cached_load_data_hit:
  "cache w = Some df \<Longrightarrow> cached_load_data R parse taxi zones w = (Inr df, w)"
  by (simp add: cached_load_data_def)

lemma cached_load_data_miss:
  assumes "cache w = None"
  shows "fst (cached_load_data R parse taxi zones w)
           = fst (load_data R parse taxi zones (np_random_state w))"
    and "cache (snd (cached_load_data R parse taxi zones w))
           = (case fst (load_data R parse taxi zones (np_random_state w)) of
                Inl e \<Rightarrow> None | Inr df \<Rightarrow> Some df)"
  using assms
  by (simp_all add: cached_load_data_def split: prod.splits sum.splits)

text \<open>
  C8. \<open>load_data\<close> is a function of the two source tables alone: the seed is fixed, so
  neither the sample nor the table depends on the state of the process-wide generator,
  which it leaves as it was. Called twice in a session on the same source, whatever
  happens to that generator in between, the cached function returns the same result
  both times.
\<close>

theorem load_data_reproducible:
  "fst (sample_df R 150000 (Some 42) g1 taxi) = fst (sample_df R 150000 (Some 42) g2 taxi) \<and>
   fst (load_data R parse taxi zones g1) = fst (load_data R parse taxi zones g2) \<and>
   snd (load_data R parse taxi zones g1) = g1 \<and>
   fst (cached_load_data R parse taxi zones
          ((snd (cached_load_data R parse taxi zones w))\<lparr>np_random_state := g2\<rparr>))
     = fst (cached_load_data R parse taxi zones w)"
proof (intro conjI)
  show "fst (sample_df R 150000 (Some 42) g1 taxi) = fst (sample_df R 150000 (Some 42) g2 taxi)"
    by (rule sample_df_seeded_indep)
  show "fst (load_data R parse taxi zones g1) = fst (load_data R parse taxi zones g2)"
    by (rule load_data_indep)
  show "snd (load_data R parse taxi zones g1) = g1"
    by (rule load_data_state)
  let ?first = "cached_load_data R parse taxi zones w"
  let ?w' = "(snd ?first)\<lparr>np_random_state := g2\<rparr>"
  show "fst (cached_load_data R parse taxi zones ?w') = fst ?first"
  proof (cases "cache w")
    case (Some df)
    then have "?first = (Inr df, w)"
      by (rule cached_load_data_hit)
    moreover from Some have "cache (w\<lparr>np_random_state := g2\<rparr>) = Some df"
      by simp
    ultimately show ?thesis
      by (simp add: cached_load_data_hit)
  next
    case None
    note first = cached_load_data_miss [OF None, of R parse taxi zones]
    show ?thesis
    proof (cases "fst (load_data R parse taxi zones (np_random_state w))")
      case (Inl e)
      with first have "cache ?w' = None"
        by simp
      then have "fst (cached_load_data R parse taxi zones ?w')
          = fst (load_data R parse taxi zones (np_random_state ?w'))"
        by (rule cached_load_data_miss)
      also have "\<dots> = fst (load_data R parse taxi zones (np_random_state w))"
        by (rule load_data_indep)
      finally show ?thesis
        using first(1) by simp
    next
      case (Inr df)
      with first have "cache ?w' = Some df"
        by simp
      then have "cached_load_data R parse taxi zones ?w' = (Inr df, ?w')"
        by (rule cached_load_data_hit)
      with first(1) Inr show ?thesis
        by simp
    qed
  qed
qed

subsection \<open>Counting groups\<close>

lemma length_dropna: "length (dropna col) = length (filter (\<lambda>c. c \<noteq> None) col)"
  by (induction col rule: dropna.induct) simp_all

lemma dropna_replicate_None: "dropna (replicate n None) = []"
  by (induction n) simp_all

lemma sum_count_list_distinct:
  assumes "distinct ks'" and "set ks' = set ks"
  shows "sum_list (map (count_list ks) ks') = length ks"
proof -
  have "sum_list (map (count_list ks) ks') = sum (count_list ks) (set ks')"
    using assms(1) by (rule sum_list_distinct_conv_sum_set)
  also have "\<dots> = length ks"
    unfolding assms(2) by (rule sum_count_set) simp_all
  finally show ?thesis .
qed

lemma sum_list_sort_values_desc:
  "sum_list (map snd (sort_values_desc rows)) = sum_list (map snd rows)"
proof -
  have "mset (map snd (sort_values_desc rows)) = mset (map snd rows)"
    by (simp add: sort_values_desc_def)
  then show ?thesis
    by (metis sum_mset_sum_list)
qed

lemma map_snd_counts: "map snd (map (\<lambda>k. (k, c k)) ks) = map c ks"
  by simp

lemma sum_list_groupby_size: "sum_list (map snd (groupby_size col)) = length (dropna col)"
proof -
  have "distinct (sort (remdups (dropna col)))"
    and "set (sort (remdups (dropna col))) = set (dropna col)"
    by simp_all
  then show ?thesis
    unfolding groupby_size_def Let_def map_snd_counts by (rule sum_count_list_distinct)
qed

lemma unique_distinct: "distinct (unique xs)" "set (unique xs) = set xs"
  by (simp_all add: unique_def)

lemma sum_list_value_counts: "sum_list (map snd (value_counts col)) = length (dropna col)"
  unfolding value_counts_def Let_def sum_list_sort_values_desc map_snd_counts
  by (rule sum_count_list_distinct [OF unique_distinct])

lemma remdups_snoc: "remdups (ys @ [x]) = remdups (filter (\<lambda>y. y \<noteq> x) ys) @ [x]"
  by (induction ys) auto

lemma unique_Nil: "unique [] = []"
  by (simp add: unique_def)

lemma unique_Cons: "unique (x # xs) = x # unique (filter (\<lambda>y. y \<noteq> x) xs)"
  by (simp add: unique_def remdups_snoc rev_filter)

lemma remdups_replicate: "remdups (replicate n x) = (if n = 0 then [] else [x])"
  by (induction n) auto

lemma unique_replicate: "unique (replicate n x) = (if n = 0 then [] else [x])"
  by (simp add: unique_def remdups_replicate)

lemma sum_list_take_le: "sum_list (take n xs) \<le> sum_list (xs :: nat list)"
proof -
  have "sum_list (take n xs) + sum_list (drop n xs) = sum_list xs"
    by (metis append_take_drop_id sum_list_append)
  then show ?thesis
    by linarith
qed

lemma length_filter_map_None:
  "length (filter (\<lambda>c. c \<noteq> None) (map f df)) = length (filter (\<lambda>r. f r \<noteq> None) df)"
  by (simp add: filter_map comp_def)

lemma dropna_replicate_Some: "dropna (replicate n (Some x)) = replicate n x"
  by (induction n) simp_all

lemma count_list_replicate: "count_list (replicate n x) x = n"
  by (induction n) simp_all

lemma enrich_unknown_trip: "enrich_row parse [jfk_zone] unknown_trip = [unknown_row]"
  by (simp add: enrich_row_def merge_row_def matches_def relabel_def with_payment_type_def
      derive_def parsed_row_def parsed_cell_def with_datetimes_def trip.defs derived.defs
      enriched.defs unknown_trip_def unknown_row_def jfk_trip_def jfk_zone_def jfk_row_def
      payment_map_def monday_0830_def ns_per_second_def ns_per_hour_def ns_per_day_def
      day_names_def)

lemma enrich_unzoned_trip: "enrich_row parse [jfk_zone] unzoned_trip = [unzoned_row]"
  by (simp add: enrich_row_def merge_row_def matches_def relabel_def with_payment_type_def
      derive_def parsed_row_def parsed_cell_def with_datetimes_def trip.defs derived.defs
      enriched.defs unzoned_trip_def unzoned_row_def jfk_trip_def jfk_zone_def jfk_row_def
      payment_map_def monday_0830_def ns_per_second_def ns_per_hour_def ns_per_day_def
      day_names_def)

lemma load_taxi_mostly_unzoned:
  "fst (load_data identity_rng parse taxi_mostly_unzoned [jfk_zone] g)
     = Inr table_mostly_unzoned"
proof -
  have "keeps unknown_trip" and "parseable parse unknown_trip"
    and "keeps unzoned_trip" and "parseable parse unzoned_trip"
    by (simp_all add: keeps_def parseable_def unknown_trip_def unzoned_trip_def jfk_trip_def)
  moreover have "length taxi_mostly_unzoned = 150000"
    by (simp add: taxi_mostly_unzoned_def)
  ultimately show ?thesis
    by (simp add: load_data_identity_rng taxi_mostly_unzoned_def table_mostly_unzoned_def
        transform_eq clean_filter keeps_jfk_trip parseable_jfk_trip enrich_jfk_trip
        enrich_unknown_trip enrich_unzoned_trip map_replicate_const)
qed

lemma filter_table_mostly_unzoned:
  "filtered_df (19737, 19737) (0, 23) [Some ''Credit Card'', None] table_mostly_unzoned
     = table_mostly_unzoned"
  by (simp add: filtered_df_def table_mostly_unzoned_def isin_def jfk_row_def unknown_row_def
      unzoned_row_def monday_0830_def ns_per_second_def ns_per_hour_def ns_per_day_def)

lemma columns_table_mostly_unzoned:
  "map zone_name table_mostly_unzoned = Some ''JFK Airport'' # None # replicate 149998 None"
  "map payment_type table_mostly_unzoned
     = Some ''Credit Card'' # None # replicate 149998 (Some ''Credit Card'')"
  by (simp_all add: table_mostly_unzoned_def zone_name_def jfk_row_def unknown_row_def
      unzoned_row_def jfk_zone_def null_zone_def)

text \<open>
  C2 as the spec states it: in every filtered view the group sizes by zone, and the
  counts by payment type, sum to the number of rows of the view. Grouping and counting
  leave out the rows with a null key. Of the 150000 trips of the table below one has a
  zone, and all but one have a payment label; the view with all dates, hours and payment
  values selected is the whole table, and the two sums are 1 and 149999.
\<close>

theorem group_counts_counterexample:
  "fst (load_data identity_rng no_parser taxi_mostly_unzoned [jfk_zone] 0)
     = Inr table_mostly_unzoned \<and>
   unique (map payment_type table_mostly_unzoned) = [Some ''Credit Card'', None] \<and>
   filtered_df (19737, 19737) (0, 23) [Some ''Credit Card'', None] table_mostly_unzoned
     = table_mostly_unzoned \<and>
   length table_mostly_unzoned = 150000 \<and>
   zone_group_sizes table_mostly_unzoned = [(''JFK Airport'', 1)] \<and>
   sum_list (map snd (zone_group_sizes table_mostly_unzoned)) = 1 \<and>
   payment_counts table_mostly_unzoned = [(''Credit Card'', 149999)] \<and>
   sum_list (map snd (payment_counts table_mostly_unzoned)) = 149999"
proof -
  have "unique (map payment_type table_mostly_unzoned) = [Some ''Credit Card'', None]"
    unfolding columns_table_mostly_unzoned by (simp add: unique_Cons unique_Nil)
  moreover have "length table_mostly_unzoned = 150000"
    by (simp add: table_mostly_unzoned_def)
  moreover have "zone_group_sizes table_mostly_unzoned = [(''JFK Airport'', 1)]"
    unfolding zone_group_sizes_def columns_table_mostly_unzoned
    by (simp add: groupby_size_def dropna_replicate_None)
  moreover have "payment_counts table_mostly_unzoned = [(''Credit Card'', 149999)]"
    unfolding payment_counts_def columns_table_mostly_unzoned
    by (simp add: value_counts_def unique_Cons unique_Nil sort_values_desc_def
        dropna_replicate_Some count_list_replicate)
  ultimately show ?thesis
    by (simp add: load_taxi_mostly_unzoned filter_table_mostly_unzoned)
qed

text \<open>
  C2, amended. In every filtered view of a table, the group sizes by zone sum to the
  number of rows of the view whose zone name is not null (the ten groups of the chart
  to at most that), and the counts by payment type sum to the number of rows of the
  view whose payment label is not null.
\<close>

theorem group_counts_sum:
  "sum_list (map snd (zone_group_sizes (filtered_df date_range hour_range payment_types df)))
     = length (filter (\<lambda>r. zone_name r \<noteq> None)
         (filtered_df date_range hour_range payment_types df)) \<and>
   sum_list (map snd (zone_counts (filtered_df date_range hour_range payment_types df)))
     \<le> length (filter (\<lambda>r. zone_name r \<noteq> None)
         (filtered_df date_range hour_range payment_types df)) \<and>
   sum_list (map snd (payment_counts (filtered_df date_range hour_range payment_types df)))
     = length (filter (\<lambda>r. payment_type r \<noteq> None)
         (filtered_df date_range hour_range payment_types df))"
proof -
  let ?view = "filtered_df date_range hour_range payment_types df"
  have zones: "sum_list (map snd (zone_group_sizes ?view))
      = length (filter (\<lambda>r. zone_name r \<noteq> None) ?view)"
    by (simp only: zone_group_sizes_def sum_list_groupby_size length_dropna
        length_filter_map_None)
  have "sum_list (map snd (zone_counts ?view))
      \<le> sum_list (map snd (sort_values_desc (zone_group_sizes ?view)))"
    unfolding zone_counts_def take_map [symmetric] by (rule sum_list_take_le)
  with zones have top: "sum_list (map snd (zone_counts ?view))
      \<le> length (filter (\<lambda>r. zone_name r \<noteq> None) ?view)"
    by (simp add: sum_list_sort_values_desc)
  have "sum_list (map snd (payment_counts ?view))
      = length (filter (\<lambda>r. payment_type r \<noteq> None) ?view)"
    by (simp only: payment_counts_def sum_list_sort_values_desc sum_list_value_counts
        length_dropna length_filter_map_None)
  with zones top show ?thesis
    by (intro conjI)
qed

end
